theory Spec2Isabelle
  imports Main "HOL-Library.Word" "HOL-Library.Monad_Syntax" "HOL-Library.AList"
begin

unbundle bit_operations_syntax

section \<open>Machine model\<close>

text \<open>
  The allocator of \<^verbatim>\<open>mm.c\<close> works on a byte-addressed heap through 64-bit
  pointers. Memory is a total function from 64-bit addresses to bytes; a
  \<^verbatim>\<open>word_t\<close> access reads or writes eight consecutive bytes (little endian).
  A pointer dereference is a read at that address: the model has no trap, so
  \<^verbatim>\<open>NULL\<close> is just the address 0.
\<close>

type_synonym word_t = "64 word"
type_synonym size_t = "64 word"
type_synonym addr = "64 word"
type_synonym byte = "8 word"

text \<open>
  The global variables \<^verbatim>\<open>free_list_start\<close> and \<^verbatim>\<open>heap_start\<close>, the heap
  bytes, and the two variables of the page provider (\<^verbatim>\<open>memlib\<close>, not part of
  \<^verbatim>\<open>mm.c\<close>): the current break and the highest break it will grant.
\<close>

record heap =
  mem :: "addr \<Rightarrow> byte"
  free_list_start :: "nat \<Rightarrow> addr"
  heap_start :: addr
  mem_brk :: addr
  mem_max_addr :: addr

definition NULL :: addr where "NULL = 0"

definition read_word :: "(addr \<Rightarrow> byte) \<Rightarrow> addr \<Rightarrow> word_t" where
  "read_word m a =
     word_of_int (horner_sum uint (2 ^ 8) (map (\<lambda>i. m (a + of_nat i)) [0..<8]))"

definition write_word :: "(addr \<Rightarrow> byte) \<Rightarrow> addr \<Rightarrow> word_t \<Rightarrow> (addr \<Rightarrow> byte)" where
  "write_word m a v =
     (\<lambda>x. if x - a < 8 then ucast (drop_bit (8 * unat (x - a)) v) else m x)"

definition load :: "heap \<Rightarrow> addr \<Rightarrow> word_t" where
  "load s a = read_word (mem s) a"

definition store :: "heap \<Rightarrow> addr \<Rightarrow> word_t \<Rightarrow> heap" where
  "store s a v = s\<lparr>mem := write_word (mem s) a v\<rparr>"

text \<open>The byte primitives \<^verbatim>\<open>memcpy\<close> and \<^verbatim>\<open>memset\<close> (external; the regions
  handed to \<^verbatim>\<open>memcpy\<close> do not overlap).\<close>

definition memcpy :: "heap \<Rightarrow> addr \<Rightarrow> addr \<Rightarrow> size_t \<Rightarrow> heap" where
  "memcpy s dst src n =
     s\<lparr>mem := (\<lambda>x. if x - dst < n then mem s (src + (x - dst)) else mem s x)\<rparr>"

definition memset :: "heap \<Rightarrow> addr \<Rightarrow> byte \<Rightarrow> size_t \<Rightarrow> heap" where
  "memset s dst c n =
     s\<lparr>mem := (\<lambda>x. if x - dst < n then c else mem s x)\<rparr>"

text \<open>Modelled from the spec: the page provider's \<^verbatim>\<open>mem_sbrk\<close> is not in
  \<^verbatim>\<open>mm.c\<close>. \<^verbatim>\<open>heap_extend(n)\<close> enlarges the heap by exactly \<^verbatim>\<open>n\<close> bytes and
  returns the address of the new region, or fails (\<^verbatim>\<open>(void *)-1\<close>) and leaves
  the heap as it is; it fails when the break would pass the provider's limit.\<close>

definition set_brk :: "heap \<Rightarrow> addr \<Rightarrow> heap" where
  "set_brk s b = s\<lparr>mem_brk := b\<rparr>"

definition mem_sbrk :: "heap \<Rightarrow> size_t \<Rightarrow> heap \<times> addr" where
  "mem_sbrk s incr =
     (if unat (mem_max_addr s) < unat (mem_brk s) + unat incr then (s, - 1)
      else (set_brk s (mem_brk s + incr), mem_brk s))"

section \<open>Constants\<close>

definition wsize :: size_t where "wsize = 8"
definition dsize :: size_t where "dsize = 2 * wsize"
definition min_block_size :: size_t where "min_block_size = dsize"
definition chunksize :: size_t where "chunksize = push_bit 12 1"
definition searchtime :: size_t where "searchtime = 0x10"
definition alloc_mask :: word_t where "alloc_mask = 0x7"
definition alloc_mask_curr :: word_t where "alloc_mask_curr = 0x1"
definition min_mask :: word_t where "min_mask = 0x4"
definition size_mask :: word_t where "size_mask = NOT 0xF"
definition free_16 :: size_t where "free_16 = 0x10"
definition free_32 :: size_t where "free_32 = 0x20"
definition free_48 :: size_t where "free_48 = 0x30"
definition free_64 :: size_t where "free_64 = 0x40"
definition free_128 :: size_t where "free_128 = 0x80"
definition free_256 :: size_t where "free_256 = 0x100"
definition free_512 :: size_t where "free_512 = 0x200"
definition free_1024 :: size_t where "free_1024 = 0x400"
definition free_2048 :: size_t where "free_2048 = 0x800"
definition free_4096 :: size_t where "free_4096 = 0x1000"
definition free_8192 :: size_t where "free_8192 = 0x2000"
definition free_16384 :: size_t where "free_16384 = 0x4000"
definition free_32768 :: size_t where "free_32768 = 0x8000"
definition free_size :: nat where "free_size = 0x0E"

section \<open>Short helper functions\<close>

definition max_sz :: "size_t \<Rightarrow> size_t \<Rightarrow> size_t" where
  "max_sz x y = (if x > y then x else y)"

definition round_up :: "size_t \<Rightarrow> size_t \<Rightarrow> size_t" where
  "round_up sz n = n * ((sz + (n - 1)) div n)"

definition pack :: "size_t \<Rightarrow> bool \<Rightarrow> bool \<Rightarrow> bool \<Rightarrow> word_t" where
  "pack sz alloc_prev alloc_curr min_block =
     (let alloc_status = (push_bit 1 (of_bool alloc_prev)) OR of_bool alloc_curr;
          alloc_status' = (if min_block then alloc_status OR min_mask else alloc_status)
      in sz OR alloc_status')"

definition extract_size :: "word_t \<Rightarrow> size_t" where
  "extract_size w = w AND size_mask"

definition get_size :: "heap \<Rightarrow> addr \<Rightarrow> size_t" where
  "get_size s block = extract_size (load s block)"

text \<open>\<^verbatim>\<open>offsetof(block_t, payload)\<close> is 8: the header word comes first, then the
  union of the payload and the pair (\<^verbatim>\<open>next\<close>, \<^verbatim>\<open>prev\<close>).\<close>

definition payload_to_header :: "addr \<Rightarrow> addr" where
  "payload_to_header bp = bp - 8"

definition header_to_payload :: "addr \<Rightarrow> addr" where
  "header_to_payload block = block + 8"

definition header_to_footer :: "heap \<Rightarrow> addr \<Rightarrow> addr" where
  "header_to_footer s block = block + 8 + get_size s block - dsize"

definition footer_to_header :: "heap \<Rightarrow> addr \<Rightarrow> addr" where
  "footer_to_header s footer = footer + wsize - extract_size (load s footer)"

definition extract_alloc :: "word_t \<Rightarrow> size_t" where
  "extract_alloc w = w AND alloc_mask"

definition get_alloc :: "heap \<Rightarrow> addr \<Rightarrow> bool \<Rightarrow> bool" where
  "get_alloc s block prev =
     (let alloc_status = extract_alloc (load s block) in
      if prev then (drop_bit 1 alloc_status) AND alloc_mask_curr \<noteq> 0
      else alloc_status AND alloc_mask_curr \<noteq> 0)"

definition is_minblock :: "heap \<Rightarrow> addr \<Rightarrow> bool" where
  "is_minblock s block = (drop_bit 2 (extract_alloc (load s block)) \<noteq> 0)"

definition get_prev_alloc :: "heap \<Rightarrow> addr \<Rightarrow> bool" where
  "get_prev_alloc s block = get_alloc s block True"

definition get_payload_size :: "heap \<Rightarrow> addr \<Rightarrow> size_t" where
  "get_payload_size s block =
     (let asize = get_size s block in
      if asize = min_block_size then wsize
      else if get_alloc s block False then asize - wsize
      else asize - dsize)"

definition write_epilogue :: "heap \<Rightarrow> addr \<Rightarrow> bool \<Rightarrow> heap" where
  "write_epilogue s block prev = store s block (pack 0 prev True False)"

definition get_free_list :: "size_t \<Rightarrow> nat" where
  "get_free_list sz =
     (if sz \<le> free_16 then 0
      else if sz \<le> free_32 then 1
      else if sz \<le> free_48 then 2
      else if sz \<le> free_64 then 3
      else if sz \<le> free_128 then 4
      else if sz \<le> free_256 then 5
      else if sz \<le> free_512 then 6
      else if sz \<le> free_1024 then 7
      else if sz \<le> free_2048 then 8
      else if sz \<le> free_4096 then 9
      else if sz \<le> free_8192 then 10
      else if sz \<le> free_16384 then 11
      else if sz \<le> free_32768 then 12
      else 13)"

text \<open>The fields \<^verbatim>\<open>next\<close> and \<^verbatim>\<open>prev\<close> of a free block are the two words after
  its header.\<close>

definition get_next :: "heap \<Rightarrow> addr \<Rightarrow> addr" where
  "get_next s block = load s (block + 8)"

definition get_prev :: "heap \<Rightarrow> addr \<Rightarrow> addr" where
  "get_prev s block = load s (block + 16)"

definition set_next :: "heap \<Rightarrow> addr \<Rightarrow> addr \<Rightarrow> heap" where
  "set_next s block v = store s (block + 8) v"

definition set_prev :: "heap \<Rightarrow> addr \<Rightarrow> addr \<Rightarrow> heap" where
  "set_prev s block v = store s (block + 16) v"

definition set_head :: "heap \<Rightarrow> nat \<Rightarrow> addr \<Rightarrow> heap" where
  "set_head s i v = s\<lparr>free_list_start := (free_list_start s)(i := v)\<rparr>"

section \<open>Free-list directory\<close>

text \<open>\<^verbatim>\<open>insert_free_basic\<close>, \<^verbatim>\<open>insert_free_mini\<close>, \<^verbatim>\<open>clear_free_basic\<close> and
  \<^verbatim>\<open>clear_free_mini\<close> return \<^verbatim>\<open>free_list_start[i]\<close>, which no caller uses; the
  model returns the updated heap, where that value is \<open>free_list_start s i\<close>.\<close>

definition insert_free_basic :: "heap \<Rightarrow> addr \<Rightarrow> nat \<Rightarrow> heap" where
  "insert_free_basic s block i =
     (if free_list_start s i = NULL then
        (let s1 = set_prev s block block;
             s2 = set_next s1 block block
         in set_head s2 i block)
      else
        (let old_start = free_list_start s i;
             old_end = get_prev s old_start;
             s1 = set_prev s block old_end;
             s2 = set_next s1 old_end block;
             s3 = set_next s2 block old_start;
             s4 = set_prev s3 old_start block
         in set_head s4 i block))"

definition insert_free_mini :: "heap \<Rightarrow> addr \<Rightarrow> nat \<Rightarrow> heap" where
  "insert_free_mini s block i =
     (if free_list_start s i = NULL then
        (let s1 = set_next s block block
         in set_head s1 i block)
      else
        (let old_start = free_list_start s i;
             s1 = set_next s block old_start
         in set_head s1 i block))"

definition insert_free :: "heap \<Rightarrow> addr \<Rightarrow> heap" where
  "insert_free s block =
     (let sz = get_size s block;
          i = get_free_list sz
      in if i = 0 then insert_free_mini s block i
         else insert_free_basic s block i)"

definition clear_free_basic :: "heap \<Rightarrow> addr \<Rightarrow> nat \<Rightarrow> heap" where
  "clear_free_basic s block i =
     (if free_list_start s i = NULL then s
      else
        (let prev_block = get_prev s block;
             next_block = get_next s block;
             s1 = (if prev_block = next_block then
                     (if prev_block = block then set_head s i NULL
                      else
                        (let t1 = set_prev s prev_block prev_block;
                             t2 = set_next t1 prev_block prev_block
                         in set_head t2 i prev_block))
                   else s);
             s2 = set_next s1 prev_block next_block;
             s3 = set_prev s2 next_block prev_block
         in if block = free_list_start s3 i then set_head s3 i next_block
            else s3))"

text \<open>The walk of \<^verbatim>\<open>clear_free_mini\<close> over the singly linked bucket:
  \<^verbatim>\<open>for (bl = free_list_start[i]; bl != bl->next; bl = bl->next)\<close>. It ends at a
  node that points to itself; on a chain without one it does not return.\<close>

partial_function (option) clear_free_mini_walk ::
  "heap \<Rightarrow> addr \<Rightarrow> addr \<Rightarrow> addr \<Rightarrow> heap option" where
  "clear_free_mini_walk s block next_block bl =
     (if bl \<noteq> get_next s bl then
        (if get_next s bl = block then Some (set_next s bl next_block)
         else clear_free_mini_walk s block next_block (get_next s bl))
      else Some s)"

definition clear_free_mini :: "heap \<Rightarrow> addr \<Rightarrow> nat \<Rightarrow> heap option" where
  "clear_free_mini s block i =
     (if free_list_start s i = NULL then Some s
      else
        (let next_block = get_next s block in
         if block = next_block then Some (set_head s i NULL)
         else if block = free_list_start s i then Some (set_head s i next_block)
         else clear_free_mini_walk s block next_block (free_list_start s i)))"

definition clear_free :: "heap \<Rightarrow> addr \<Rightarrow> heap option" where
  "clear_free s block =
     (let sz = get_size s block;
          i = get_free_list sz
      in if i = 0 then clear_free_mini s block i
         else Some (clear_free_basic s block i))"

definition find_next :: "heap \<Rightarrow> addr \<Rightarrow> addr" where
  "find_next s block = block + get_size s block"

definition find_next_free :: "heap \<Rightarrow> addr \<Rightarrow> addr" where
  "find_next_free s block = get_next s block"

section \<open>Transition engine\<close>

definition alloc2free :: "heap \<Rightarrow> addr \<Rightarrow> size_t \<Rightarrow> bool \<Rightarrow> bool \<Rightarrow> heap" where
  "alloc2free s block sz prev alloc =
     (let min = (sz = min_block_size);
          prev_min = is_minblock s block;
          s2 = (if \<not> prev then
                  (let s1 = store s block (pack sz False alloc prev_min) in
                   if \<not> min then store s1 (header_to_footer s1 block) (pack sz False alloc prev_min)
                   else s1)
                else
                  (let s1 = store s block (pack sz True alloc prev_min) in
                   if \<not> min then store s1 (header_to_footer s1 block) (pack sz True alloc prev_min)
                   else s1))
      in insert_free s2 block)"

definition free2alloc :: "heap \<Rightarrow> addr \<Rightarrow> size_t \<Rightarrow> bool \<Rightarrow> bool \<Rightarrow> heap option" where
  "free2alloc s block sz prev alloc =
     do {
       s1 \<leftarrow> clear_free s block;
       let is_min = is_minblock s1 block;
       if \<not> prev then Some (store s1 block (pack sz False alloc is_min))
       else Some (store s1 block (pack sz True alloc is_min))
     }"

definition modify_next :: "heap \<Rightarrow> addr \<Rightarrow> bool \<Rightarrow> bool \<Rightarrow> heap" where
  "modify_next s nxt prev is_min =
     (let sz = get_size s nxt;
          alloc = get_alloc s nxt False
      in if sz \<noteq> 0 then
           (let s1 = store s nxt (pack sz prev alloc is_min) in
            if \<not> alloc \<and> sz \<noteq> min_block_size
            then store s1 (header_to_footer s1 nxt) (pack sz prev alloc is_min)
            else s1)
         else store s nxt (pack sz prev alloc is_min))"

definition find_prev_footer :: "addr \<Rightarrow> addr" where
  "find_prev_footer block = block - 8"

definition find_prev :: "heap \<Rightarrow> addr \<Rightarrow> addr" where
  "find_prev s block =
     (let footerp = find_prev_footer block in
      if extract_size (load s footerp) = 0 then NULL
      else footer_to_header s footerp)"

definition find_prev_free :: "heap \<Rightarrow> addr \<Rightarrow> addr" where
  "find_prev_free s block = get_prev s block"

definition coalesce_block :: "heap \<Rightarrow> addr \<Rightarrow> (heap \<times> addr) option" where
  "coalesce_block s block =
     (let nxt = find_next s block in
      if \<not> get_prev_alloc s block then
        (let prev = (if is_minblock s block then block - dsize else find_prev s block) in
         if \<not> get_alloc s nxt False then
           (let prev_alloc = get_prev_alloc s prev;
                sz = get_size s prev + get_size s block + get_size s nxt
            in do {
              s1 \<leftarrow> clear_free s block;
              s2 \<leftarrow> clear_free s1 prev;
              s3 \<leftarrow> clear_free s2 nxt;
              let s4 = alloc2free s3 prev sz prev_alloc False;
              let prev_min = (sz = min_block_size);
              Some (modify_next s4 (find_next s4 prev) False prev_min, prev)
            })
         else
           (let prev_alloc = get_prev_alloc s prev;
                sz = get_size s prev + get_size s block
            in do {
              s1 \<leftarrow> clear_free s block;
              s2 \<leftarrow> clear_free s1 prev;
              let s3 = alloc2free s2 prev sz prev_alloc False;
              let prev_min = (sz = min_block_size);
              Some (modify_next s3 (find_next s3 prev) False prev_min, prev)
            }))
      else
        (if \<not> get_alloc s nxt False then
           (let prev_alloc = get_prev_alloc s block;
                sz = get_size s block + get_size s nxt
            in do {
              s1 \<leftarrow> clear_free s block;
              s2 \<leftarrow> clear_free s1 nxt;
              let s3 = alloc2free s2 block sz prev_alloc False;
              let prev_min = (sz = min_block_size);
              Some (modify_next s3 (find_next s3 block) False prev_min, block)
            })
         else Some (s, block)))"

definition extend_heap :: "heap \<Rightarrow> size_t \<Rightarrow> (heap \<times> addr) option" where
  "extend_heap s sz0 =
     (let sz = round_up sz0 dsize;
          (s1, bp) = mem_sbrk s sz
      in if bp = - 1 then Some (s1, NULL)
         else
           (let block = payload_to_header bp;
                prev_alloc = get_prev_alloc s1 block;
                s2 = alloc2free s1 block sz prev_alloc False;
                block_next = find_next s2 block;
                s3 = write_epilogue s2 block_next False
            in coalesce_block s3 block))"

definition split_block :: "heap \<Rightarrow> addr \<Rightarrow> size_t \<Rightarrow> heap option" where
  "split_block s block asize =
     (let block_size = get_size s block;
          prev_alloc = get_prev_alloc s block
      in if block_size - asize \<ge> min_block_size then
           do {
             s1 \<leftarrow> free2alloc s block asize prev_alloc True;
             let prev_min = (asize = min_block_size);
             let block_next = find_next s1 block;
             let sz = block_size - asize;
             let next_min = (sz = min_block_size);
             let s2 = alloc2free s1 block_next sz True False;
             let s3 = modify_next s2 block_next True prev_min;
             Some (modify_next s3 (find_next s3 block_next) False next_min)
           }
         else Some s)"


section \<open>Placement engine\<close>

text \<open>The \<^verbatim>\<open>for\<close> loop of \<^verbatim>\<open>find_fit_basic\<close>, with its local variables
  \<^verbatim>\<open>block\<close>, \<^verbatim>\<open>mindiff\<close>, \<^verbatim>\<open>best\<close>, \<^verbatim>\<open>init\<close> and \<^verbatim>\<open>times\<close> (here \<open>tms\<close>) as
  arguments. The
  sizes are unsigned, so the test \<^verbatim>\<open>(sizeb - asize) >= 0\<close> is on the wrapped
  difference. The loop ends when the chain comes back to the bucket head; on a
  chain that never does, it does not return.\<close>

partial_function (option) find_fit_basic_loop ::
  "heap \<Rightarrow> size_t \<Rightarrow> addr \<Rightarrow> addr \<Rightarrow> size_t \<Rightarrow> addr \<Rightarrow> bool \<Rightarrow> size_t \<Rightarrow> addr option" where
  "find_fit_basic_loop s asize free_list_starter block mindiff best init tms =
     (if block \<noteq> free_list_starter then
        (if asize \<le> get_size s block \<and> get_size s block - asize \<le> free_16 then Some block
         else if tms = searchtime then
           (if init then Some best
            else if \<not> init \<and> asize \<le> get_size s free_list_starter then Some free_list_starter
            else find_fit_basic_loop s asize free_list_starter (find_next_free s block)
                   mindiff best init (tms + 1))
         else
           (if get_size s block - asize \<ge> 0 then
              (if \<not> init \<or> get_size s block - asize < mindiff then
                 find_fit_basic_loop s asize free_list_starter (find_next_free s block)
                   (get_size s block - asize) block init (tms + 1)
               else
                 find_fit_basic_loop s asize free_list_starter (find_next_free s block)
                   mindiff best init (tms + 1))
            else
              find_fit_basic_loop s asize free_list_starter (find_next_free s block)
                mindiff best init (tms + 1)))
      else
        (if init then Some best
         else if \<not> init \<and> asize \<le> get_size s free_list_starter then Some free_list_starter
         else Some NULL))"

text \<open>\<^verbatim>\<open>mindiff\<close> is declared without a value and assigned only when the head
  fits; the loop reads it only when \<^verbatim>\<open>init\<close> is set, so the value 0 given to it
  here otherwise is never looked at.\<close>

definition find_fit_basic :: "heap \<Rightarrow> size_t \<Rightarrow> addr \<Rightarrow> addr option" where
  "find_fit_basic s asize free_list_starter =
     (if free_list_starter = NULL then Some NULL
      else
        (let sizeb = get_size s free_list_starter in
         if asize \<le> sizeb \<and> sizeb - asize \<le> free_16 then Some free_list_starter
         else
           (let block = find_next_free s free_list_starter in
            if asize \<le> sizeb
            then find_fit_basic_loop s asize free_list_starter block
                   (sizeb - asize) free_list_starter True 0
            else find_fit_basic_loop s asize free_list_starter block
                   0 free_list_starter False 0)))"

text \<open>The loop \<^verbatim>\<open>while (times < free_size)\<close> that every branch of \<^verbatim>\<open>find_fit\<close>
  runs from its own first bucket. When it ends without a hit, \<^verbatim>\<open>find_fit\<close>
  returns the variable \<^verbatim>\<open>block\<close>, which then holds the \<^verbatim>\<open>NULL\<close> of the last
  \<^verbatim>\<open>find_fit_basic\<close> call (every branch starts below \<^verbatim>\<open>free_size\<close>, so the body
  has run).\<close>

function find_fit_while :: "heap \<Rightarrow> size_t \<Rightarrow> nat \<Rightarrow> addr option" where
  "find_fit_while s asize tms =
     (if tms < free_size then
        (case find_fit_basic s asize (free_list_start s tms) of
           None \<Rightarrow> None
         | Some block \<Rightarrow>
             if block \<noteq> NULL then Some block
             else find_fit_while s asize (tms + 1))
      else Some NULL)"
  by pat_completeness auto
termination
  by (relation "measure (\<lambda>(s, asize, tms). free_size - tms)") auto

declare find_fit_while.simps [simp del]

definition find_fit :: "heap \<Rightarrow> size_t \<Rightarrow> addr option" where
  "find_fit s asize =
     (if asize \<le> free_16 then find_fit_while s asize 0
      else if asize \<le> free_32 then find_fit_while s asize 1
      else if asize \<le> free_48 then find_fit_while s asize 2
      else if asize \<le> free_64 then find_fit_while s asize 3
      else if asize \<le> free_128 then find_fit_while s asize 4
      else if asize \<le> free_256 then find_fit_while s asize 5
      else if asize \<le> free_512 then find_fit_while s asize 6
      else if asize \<le> free_1024 then find_fit_while s asize 7
      else if asize \<le> free_2048 then find_fit_while s asize 8
      else if asize \<le> free_4096 then find_fit_while s asize 9
      else if asize \<le> free_8192 then find_fit_while s asize 10
      else if asize \<le> free_16384 then find_fit_while s asize 11
      else if asize \<le> free_32768 then find_fit_while s asize 12
      else find_fit_while s asize 13)"

section \<open>Heap shell\<close>

text \<open>The loop of \<^verbatim>\<open>mm_init\<close> that sets \<^verbatim>\<open>free_list_start[i] = NULL\<close> for every
  \<^verbatim>\<open>i < free_size\<close>.\<close>

definition clear_free_lists :: "heap \<Rightarrow> heap" where
  "clear_free_lists s =
     s\<lparr>free_list_start := (\<lambda>i. if i < free_size then NULL else free_list_start s i)\<rparr>"

definition set_heap_start :: "heap \<Rightarrow> addr \<Rightarrow> heap" where
  "set_heap_start s a = s\<lparr>heap_start := a\<rparr>"

definition mm_init :: "heap \<Rightarrow> (heap \<times> bool) option" where
  "mm_init s =
     (let (s1, start) = mem_sbrk s (2 * wsize) in
      if start = - 1 then Some (s1, False)
      else
        (let s2 = store s1 start (pack 0 False True True);
             s3 = store s2 (start + 8) (pack 0 True True True);
             s4 = set_heap_start s3 (start + 8);
             s5 = clear_free_lists s4
         in case extend_heap s5 chunksize of
              None \<Rightarrow> None
            | Some (s6, block) \<Rightarrow>
                if block = NULL then Some (s6, False) else Some (s6, True)))"

definition malloc :: "heap \<Rightarrow> size_t \<Rightarrow> (heap \<times> addr) option" where
  "malloc s sz =
     do {
       s0 \<leftarrow> (if heap_start s = NULL then map_option fst (mm_init s) else Some s);
       if sz = 0 then Some (s0, NULL)
       else
         (let asize = round_up (sz + wsize) dsize;
              prev_min = (asize = min_block_size)
          in do {
            found \<leftarrow> find_fit s0 asize;
            (s1, block) \<leftarrow>
              (if found = NULL then extend_heap s0 (max_sz asize chunksize)
               else Some (s0, found));
            if found = NULL \<and> block = NULL then Some (s1, NULL)
            else
              (let block_size = get_size s1 block;
                   prev_alloc = get_prev_alloc s1 block
               in do {
                 s2 \<leftarrow> free2alloc s1 block block_size prev_alloc True;
                 let s3 = modify_next s2 (find_next s2 block) True prev_min;
                 s4 \<leftarrow> split_block s3 block asize;
                 Some (s4, header_to_payload block)
               })
          })
     }"

definition free :: "heap \<Rightarrow> addr \<Rightarrow> heap option" where
  "free s bp =
     (if bp = NULL then Some s
      else
        (let block = payload_to_header bp;
             sz = get_size s block;
             prev_min = (sz = min_block_size);
             prev_alloc = get_prev_alloc s block;
             s1 = alloc2free s block sz prev_alloc False;
             s2 = modify_next s1 (find_next s1 block) False prev_min
         in map_option fst (coalesce_block s2 block)))"

definition realloc :: "heap \<Rightarrow> addr \<Rightarrow> size_t \<Rightarrow> (heap \<times> addr) option" where
  "realloc s ptr sz =
     (let block = payload_to_header ptr in
      if sz = 0 then map_option (\<lambda>s'. (s', NULL)) (free s ptr)
      else if ptr = NULL then malloc s sz
      else
        do {
          (s1, newptr) \<leftarrow> malloc s sz;
          if newptr = NULL then Some (s1, NULL)
          else
            (let copysize = get_payload_size s1 block;
                 copysize' = (if sz < copysize then sz else copysize);
                 s2 = memcpy s1 newptr ptr copysize'
             in map_option (\<lambda>s'. (s', newptr)) (free s2 ptr))
        })"

definition calloc :: "heap \<Rightarrow> size_t \<Rightarrow> size_t \<Rightarrow> (heap \<times> addr) option" where
  "calloc s elements sz =
     (let asize = elements * sz in
      if elements = 0 then Some (s, NULL)
      else if asize div elements \<noteq> sz then Some (s, NULL)
      else
        do {
          (s1, bp) \<leftarrow> malloc s asize;
          if bp = NULL then Some (s1, NULL)
          else Some (memset s1 bp 0 asize, bp)
        })"


section \<open>Bucket chains\<close>

text \<open>A block is on the chain of a bucket head when following \<^verbatim>\<open>next\<close> from the
  head reaches it.\<close>

definition on_chain :: "heap \<Rightarrow> addr \<Rightarrow> addr \<Rightarrow> bool" where
  "on_chain s h b \<longleftrightarrow> (\<exists>n. (find_next_free s ^^ n) h = b)"

text \<open>What the placement engine relies on, bucket by bucket: every block on the
  chain is free; bucket 0 holds minimum-size blocks; the chain of any other
  bucket is circular, so that following \<^verbatim>\<open>next\<close> comes back to the head.\<close>

definition bucket_ok :: "heap \<Rightarrow> nat \<Rightarrow> bool" where
  "bucket_ok s i \<longleftrightarrow>
     (let h = free_list_start s i in
      h = NULL \<or>
      ((\<forall>b. on_chain s h b \<longrightarrow> \<not> get_alloc s b False) \<and>
       (if i = 0 then get_size s h = min_block_size
        else (\<exists>n. (find_next_free s ^^ Suc n) h = h))))"

definition directory_ok :: "heap \<Rightarrow> bool" where
  "directory_ok s \<longleftrightarrow> (\<forall>i < free_size. bucket_ok s i)"

definition fit_result :: "heap \<Rightarrow> size_t \<Rightarrow> addr \<Rightarrow> bool" where
  "fit_result s asize b \<longleftrightarrow>
     b = NULL \<or> (\<not> get_alloc s b False \<and> asize \<le> get_size s b)"

text \<open>A block is on some bucket when it is on the chain of a bucket that is not empty.\<close>

definition on_some_bucket :: "heap \<Rightarrow> addr \<Rightarrow> bool" where
  "on_some_bucket s b \<longleftrightarrow>
     (\<exists>i<free_size. free_list_start s i \<noteq> NULL \<and> on_chain s (free_list_start s i) b)"

text \<open>The internal allocation of \<^verbatim>\<open>sz\<close> bytes cannot be satisfied: no bucket yields a
  block for the rounded size, and the provider refuses the extension \<^verbatim>\<open>malloc\<close> then
  asks for.\<close>

definition alloc_unsatisfiable :: "heap \<Rightarrow> size_t \<Rightarrow> bool" where
  "alloc_unsatisfiable s sz \<longleftrightarrow>
     (let asize = round_up (sz + wsize) dsize in
      find_fit s asize = Some NULL \<and>
      unat (mem_max_addr s) <
        unat (mem_brk s) + unat (round_up (max_sz asize chunksize) dsize))"

section \<open>Concrete heaps\<close>

text \<open>A heap given by the words it holds at 8-byte aligned addresses, over memory
  that is zero everywhere else, and by the 14 bucket heads.\<close>

definition mem_of :: "(addr \<times> word_t) list \<Rightarrow> addr \<Rightarrow> byte" where
  "mem_of ws =
     foldr (\<lambda>(a, v) m. if a AND 7 = 0 then write_word m a v else m) ws (\<lambda>_. 0)"

definition mkheap ::
  "(addr \<times> word_t) list \<Rightarrow> addr list \<Rightarrow> addr \<Rightarrow> addr \<Rightarrow> addr \<Rightarrow> heap" where
  "mkheap ws fl hs b mx =
     \<lparr>mem = mem_of ws,
      free_list_start = (\<lambda>i. if i < length fl then fl ! i else 0),
      heap_start = hs, mem_brk = b, mem_max_addr = mx\<rparr>"

text \<open>The heap before \<^verbatim>\<open>mm_init\<close> has run: nothing allocated from the provider,
  which will grant the addresses from \<^verbatim>\<open>0x1000\<close> up to \<^verbatim>\<open>0x3000\<close>.\<close>

definition heap0 :: heap where
  "heap0 = mkheap [] [0, 0, 0, 0, 0, 0, 0, 0, 0, 0, 0, 0, 0, 0] 0 0x1000 0x3000"

section \<open>The heap after initialisation\<close>

text \<open>What \<^verbatim>\<open>mm_init\<close> leaves when the provider grants both requests: the
  prologue and, after one free block of \<^verbatim>\<open>chunksize\<close> bytes in bucket 9, the
  epilogue.\<close>

text \<open>What it leaves when the provider grants the first request only.\<close>

definition init_prefix :: "heap \<Rightarrow> heap" where
  "init_prefix s =
     (let st = mem_brk s in
      clear_free_lists (set_heap_start (store (store (set_brk s (st + 16)) st
        (pack 0 False True True)) (st + 8) (pack 0 True True True)) (st + 8)))"

definition init_heap :: "heap \<Rightarrow> heap" where
  "init_heap s =
     (let st = mem_brk s;
          b = st + 8;
          w = pack 4096 True False True;
          s5 = clear_free_lists (set_heap_start (store (store (set_brk s (st + 16)) st
                 (pack 0 False True True)) b (pack 0 True True True)) b)
      in store (set_head (store (store (store (store (set_brk s5 (st + 4112)) b w)
           (st + 4096) w) (st + 24) b) (st + 16) b) 9 b) (st + 4104) (pack 0 False True False))"

section \<open>A run of the allocator\<close>

text \<open>The heap \<^verbatim>\<open>mm_init\<close> makes of \<^const>\<open>heap0\<close>, and the heaps reached from \<^const>\<open>heap0\<close> by five allocations of 8 bytes, which return
  \<^verbatim>\<open>a = 4112\<close>, \<^verbatim>\<open>b = 4128\<close>, \<^verbatim>\<open>c = 4144\<close>, \<^verbatim>\<open>d = 4160\<close> and \<^verbatim>\<open>e = 4176\<close>,
  then by \<^verbatim>\<open>free(a)\<close>, \<^verbatim>\<open>free(d)\<close> and \<^verbatim>\<open>free(b)\<close>.\<close>

definition heapI :: heap where
  "heapI =
     mkheap [(4096, 5), (4104, 4102), (8192, 4102), (4120, 4104), (4112, 4104), (8200, 1)]
       [0, 0, 0, 0, 0, 0, 0, 0, 0, 4104, 0, 0, 0, 0] 4104 8208 12288"

definition heapA1 :: heap where
  "heapA1 =
     mkheap [(4096, 5), (4104, 23), (8192, 4086), (4120, 4086), (4112, 4104), (8200, 1),
     (4136, 4120), (4128, 4120)] [0, 0, 0, 0, 0, 0, 0, 0, 0, 4120, 0, 0, 0, 0] 4104 8208
     12288"

definition heapA2 :: heap where
  "heapA2 =
     mkheap [(4096, 5), (4104, 23), (8192, 4070), (4120, 23), (4112, 4104), (8200, 1), (4136,
     4070), (4128, 4120), (4152, 4136), (4144, 4136)] [0, 0, 0, 0, 0, 0, 0, 0, 0, 4136,
     0, 0, 0, 0] 4104 8208 12288"

definition heapA3 :: heap where
  "heapA3 =
     mkheap [(4096, 5), (4104, 23), (8192, 4054), (4120, 23), (4112, 4104), (8200, 1), (4136,
     23), (4128, 4120), (4152, 4054), (4144, 4136), (4168, 4152), (4160, 4152)] [0, 0,
     0, 0, 0, 0, 0, 0, 0, 4152, 0, 0, 0, 0] 4104 8208 12288"

definition heapA4 :: heap where
  "heapA4 =
     mkheap [(4096, 5), (4104, 23), (8192, 4038), (4120, 23), (4112, 4104), (8200, 1), (4136,
     23), (4128, 4120), (4152, 23), (4144, 4136), (4168, 4038), (4160, 4152), (4184,
     4168), (4176, 4168)] [0, 0, 0, 0, 0, 0, 0, 0, 0, 4168, 0, 0, 0, 0] 4104 8208 12288"

definition heapA5 :: heap where
  "heapA5 =
     mkheap [(4096, 5), (4104, 23), (8192, 4022), (4120, 23), (4112, 4104), (8200, 1), (4136,
     23), (4128, 4120), (4152, 23), (4144, 4136), (4168, 23), (4160, 4152), (4184,
     4022), (4176, 4168), (4200, 4184), (4192, 4184)] [0, 0, 0, 0, 0, 0, 0, 0, 0, 4184,
     0, 0, 0, 0] 4104 8208 12288"

definition heapA6 :: heap where
  "heapA6 =
     mkheap [(4096, 5), (4104, 22), (8192, 4022), (4120, 21), (4112, 4104), (8200, 1), (4136,
     23), (4128, 4120), (4152, 23), (4144, 4136), (4168, 23), (4160, 4152), (4184,
     4022), (4176, 4168), (4200, 4184), (4192, 4184)] [4104, 0, 0, 0, 0, 0, 0, 0, 0,
     4184, 0, 0, 0, 0] 4104 8208 12288"

definition heapA7 :: heap where
  "heapA7 =
     mkheap [(4096, 5), (4104, 22), (8192, 4022), (4120, 21), (4112, 4104), (8200, 1), (4136,
     23), (4128, 4120), (4152, 22), (4144, 4136), (4168, 21), (4160, 4104), (4184,
     4022), (4176, 4168), (4200, 4184), (4192, 4184)] [4152, 0, 0, 0, 0, 0, 0, 0, 0,
     4184, 0, 0, 0, 0] 4104 8208 12288"

definition heapA8 :: heap where
  "heapA8 =
     mkheap [(4096, 5), (4104, 38), (8192, 4022), (4120, 4104), (4112, 4104), (8200, 1),
     (4136, 17), (4128, 38), (4152, 22), (4144, 4136), (4168, 21), (4160, 4104), (4184,
     4022), (4176, 4168), (4200, 4184), (4192, 4184)] [0, 4104, 0, 0, 0, 0, 0, 0, 0,
     4184, 0, 0, 0, 0] 4104 8208 12288"

section \<open>Words in memory\<close>

lemmas mm_consts =
  NULL_def wsize_def dsize_def min_block_size_def chunksize_def searchtime_def
  alloc_mask_def alloc_mask_curr_def min_mask_def size_mask_def
  free_16_def free_32_def free_48_def free_64_def free_128_def free_256_def
  free_512_def free_1024_def free_2048_def free_4096_def free_8192_def
  free_16384_def free_32768_def free_size_def


lemma horner8: "2 ^ 8 = (2::int) ^ LENGTH(8)" by simp
lemma read_word_bit:
  "bit (read_word m a) n \<longleftrightarrow> n < 64 \<and> bit (m (a + of_nat (n div 8))) (n mod 8)"
  apply (simp only: read_word_def horner8 bit_word_of_int_iff bit_horner_sum_uint_exp_iff)
  apply (auto simp add: bit_simps less_mult_imp_div_less dest: bit_imp_le_length)
  done
lemma read_write_same: "read_word (write_word m a v) a = v"
  apply (rule bit_word_eqI)
  apply (simp add: read_word_bit)
  apply (simp add: write_word_def bit_simps word_less_nat_alt unat_of_nat less_mult_imp_div_less)
  done
lemma read_word_cong:
  "(\<And>i. i < 8 \<Longrightarrow> m1 (a + of_nat i) = m2 (a + of_nat i)) \<Longrightarrow> read_word m1 a = read_word m2 a"
  apply (rule bit_word_eqI)
  apply (simp add: read_word_bit less_mult_imp_div_less)
  done
lemma off_disj: "8 \<le> b - a \<Longrightarrow> 8 \<le> a - b \<Longrightarrow> i < 8 \<Longrightarrow> \<not> ((b::64 word) + of_nat i - a < 8)"
  apply (subgoal_tac "unat (of_nat i :: 64 word) = i")
  apply unat_arith
  apply (simp add: unat_of_nat)
  done
lemma read_write_disj:
  "8 \<le> b - a \<Longrightarrow> 8 \<le> a - b \<Longrightarrow> read_word (write_word m a v) b = read_word m b"
  apply (rule read_word_cong)
  apply (simp add: write_word_def off_disj)
  done

lemma load_store_same: "load (store s a v) a = v"
  by (simp add: load_def store_def read_write_same)

lemma load_store_disj:
  "8 \<le> b - a \<Longrightarrow> 8 \<le> a - b \<Longrightarrow> load (store s a v) b = load s b"
  by (simp add: load_def store_def read_write_disj)

lemma store_fields:
  "free_list_start (store s a v) = free_list_start s"
  "heap_start (store s a v) = heap_start s"
  "mem_brk (store s a v) = mem_brk s"
  "mem_max_addr (store s a v) = mem_max_addr s"
  by (simp_all add: store_def)

lemma set_head_fields:
  "free_list_start (set_head s i v) = (free_list_start s)(i := v)"
  "heap_start (set_head s i v) = heap_start s"
  "mem_brk (set_head s i v) = mem_brk s"
  "mem_max_addr (set_head s i v) = mem_max_addr s"
  "mem (set_head s i v) = mem s"
  by (simp_all add: set_head_def)

lemma load_set_head: "load (set_head s i v) a = load s a"
  by (simp add: load_def set_head_def)

section \<open>Header words\<close>

lemma m15: "(15::64 word) = mask 4" by (simp add: mask_eq_exp_minus_1)
lemma m16: "(-16::64 word) = NOT (mask 4)" by (simp add: mask_eq_exp_minus_1)
lemma m7: "(7::64 word) = mask 3" by (simp add: mask_eq_exp_minus_1)
lemma m1: "(1::64 word) = mask 1" by (simp add: mask_eq_exp_minus_1)

lemma and15_bits: "((x::64 word) AND 15 = 0) \<longleftrightarrow> (\<forall>n<4. \<not> bit x n)"
  apply (auto simp add: m15 bit_eq_iff bit_simps)
  apply (drule_tac x=n in spec)
  apply simp
  done

lemma pack_alt:
  "pack sz p a m = sz OR push_bit 1 (of_bool p) OR of_bool a OR push_bit 2 (of_bool m)"
  by (cases m) (simp_all add: pack_def Let_def min_mask_def ac_simps)

lemma bit_pack:
  "bit (pack sz p a m) n \<longleftrightarrow> bit sz n \<or> (n = 0 \<and> a) \<or> (n = 1 \<and> p) \<or> (n = 2 \<and> m)"
  by (auto simp add: pack_alt bit_simps dest: bit_imp_le_length)

lemma bit_extract_size: "bit (extract_size w) n \<longleftrightarrow> bit w n \<and> 4 \<le> n"
  by (auto simp add: extract_size_def size_mask_def m16 bit_simps dest: bit_imp_le_length)

lemma extract_size_pack:
  "sz AND 15 = 0 \<Longrightarrow> extract_size (pack sz p a m) = sz"
  apply (rule bit_word_eqI)
  apply (auto simp add: bit_extract_size bit_pack and15_bits)
  apply (rule ccontr, simp)
  done

lemma bit_and7: "bit ((w::64 word) AND 7) n \<longleftrightarrow> bit w n \<and> n < 3"
  by (auto simp add: m7 bit_simps)

lemma and1_neq0: "((x::64 word) AND 1 \<noteq> 0) \<longleftrightarrow> bit x 0"
  by (simp add: and_one_eq bit_0 odd_iff_mod_2_eq_one)

lemma get_alloc_bit0: "get_alloc s b False \<longleftrightarrow> bit (load s b) 0"
  unfolding get_alloc_def Let_def extract_alloc_def alloc_mask_def alloc_mask_curr_def
  by (simp only: and1_neq0 bit_and7 if_False) simp

lemma get_alloc_bit1: "get_alloc s b True \<longleftrightarrow> bit (load s b) 1"
  unfolding get_alloc_def Let_def extract_alloc_def alloc_mask_def alloc_mask_curr_def
  by (simp only: and1_neq0 if_True bit_drop_bit_eq) (simp add: bit_and7)

lemma is_minblock_bit2: "is_minblock s b \<longleftrightarrow> bit (load s b) 2"
proof -
  have "drop_bit 2 ((load s b) AND 7) \<noteq> 0 \<longleftrightarrow> bit (load s b) 2"
    apply (simp only: bit_eq_iff bit_drop_bit_eq bit_and7)
    apply (auto simp add: bit_simps numeral_2_eq_2)
    done
  then show ?thesis by (simp add: is_minblock_def extract_alloc_def alloc_mask_def)
qed
section \<open>Reading a heap after an update\<close>

lemma proj_load:
  "load (set_head s i h) a = load s a"
  "load (set_heap_start s hs) a = load s a"
  "load (clear_free_lists s) a = load s a"
  "load (set_brk s b) a = load s a"
  by (simp_all add: load_def set_head_def set_heap_start_def clear_free_lists_def set_brk_def)

lemma proj_fls:
  "free_list_start (store s a v) = free_list_start s"
  "free_list_start (set_head s i h) = (free_list_start s)(i := h)"
  "free_list_start (set_heap_start s hs) = free_list_start s"
  "free_list_start (clear_free_lists s) j = (if j < 14 then 0 else free_list_start s j)"
  "free_list_start (set_brk s b) = free_list_start s"
  by (simp_all add: store_def set_head_def set_heap_start_def clear_free_lists_def set_brk_def mm_consts)

lemma proj_hs:
  "heap_start (store s a v) = heap_start s"
  "heap_start (set_head s i h) = heap_start s"
  "heap_start (set_heap_start s hs) = hs"
  "heap_start (clear_free_lists s) = heap_start s"
  "heap_start (set_brk s b) = heap_start s"
  by (simp_all add: store_def set_head_def set_heap_start_def clear_free_lists_def set_brk_def)

lemma proj_brk:
  "mem_brk (store s a v) = mem_brk s"
  "mem_brk (set_head s i h) = mem_brk s"
  "mem_brk (set_heap_start s hs) = mem_brk s"
  "mem_brk (clear_free_lists s) = mem_brk s"
  "mem_brk (set_brk s b) = b"
  by (simp_all add: store_def set_head_def set_heap_start_def clear_free_lists_def set_brk_def)

lemma proj_max:
  "mem_max_addr (store s a v) = mem_max_addr s"
  "mem_max_addr (set_head s i h) = mem_max_addr s"
  "mem_max_addr (set_heap_start s hs) = mem_max_addr s"
  "mem_max_addr (clear_free_lists s) = mem_max_addr s"
  "mem_max_addr (set_brk s b) = mem_max_addr s"
  by (simp_all add: store_def set_head_def set_heap_start_def clear_free_lists_def set_brk_def)

lemmas proj = proj_load proj_fls proj_hs proj_brk proj_max

section \<open>The placement engine returns a free block that fits\<close>

lemma on_chain_next: "on_chain s h b \<Longrightarrow> on_chain s h (find_next_free s b)"
  unfolding on_chain_def
proof -
  assume "\<exists>n. (find_next_free s ^^ n) h = b"
  then obtain n where "(find_next_free s ^^ n) h = b" ..
  then have "(find_next_free s ^^ Suc n) h = find_next_free s b" by simp
  then show "\<exists>n. (find_next_free s ^^ n) h = find_next_free s b" ..
qed

lemma on_chain_refl: "on_chain s h h"
  unfolding on_chain_def by (rule exI [of _ 0]) simp

lemma wrapped_diff_less:
  fixes asize sb x :: "64 word"
  shows "asize \<le> sb \<Longrightarrow> x - asize < sb - asize \<Longrightarrow> asize \<le> x"
  by unat_arith

lemma loop_sound:
  assumes "find_fit_basic_loop s asize h block mindiff best init tms = Some r"
  shows "on_chain s h block \<longrightarrow> on_chain s h best \<longrightarrow>
     (init \<longrightarrow> asize \<le> get_size s best \<and> mindiff = get_size s best - asize)
     \<longrightarrow> (r = NULL \<or> (on_chain s h r \<and> asize \<le> get_size s r))"
  using assms
  apply (rule find_fit_basic_loop.raw_induct [where P = "\<lambda>s asize h block mindiff best init tms r. 
      on_chain s h block \<longrightarrow> on_chain s h best \<longrightarrow>
      (init \<longrightarrow> asize \<le> get_size s best \<and> mindiff = get_size s best - asize)
     \<longrightarrow> (r = NULL \<or> (on_chain s h r \<and> asize \<le> get_size s r))", rotated])
  apply (simp only: atomize_all atomize_imp)
  apply (simp split: if_splits)
  apply (intro conjI impI allI; (blast intro: on_chain_next on_chain_refl wrapped_diff_less)?)
  done


lemma loop_terminates:
  "(find_next_free s ^^ k) block = h \<Longrightarrow>
   \<exists>r. find_fit_basic_loop s asize h block mindiff best init tms = Some r"
proof (induction k arbitrary: block mindiff best init tms)
  case 0
  then show ?case by (subst find_fit_basic_loop.simps) simp
next
  case (Suc k)
  then have nxt: "(find_next_free s ^^ k) (find_next_free s block) = h"
    by (simp add: funpow_swap1)
  show ?case
    by (subst find_fit_basic_loop.simps) (simp add: Suc.IH [OF nxt])
qed


lemma find_fit_basic_sound:
  assumes "find_fit_basic s asize h = Some r" and "r \<noteq> NULL"
  shows "on_chain s h r \<and> asize \<le> get_size s r"
proof -
  have h: "h \<noteq> NULL" using assms by (auto simp add: find_fit_basic_def split: if_splits)
  show ?thesis
  proof (cases "asize \<le> get_size s h \<and> get_size s h - asize \<le> free_16")
    case True
    then show ?thesis using assms h by (simp add: find_fit_basic_def Let_def on_chain_refl)
  next
    case False
    then have "find_fit_basic_loop s asize h (find_next_free s h)
           (if asize \<le> get_size s h then get_size s h - asize else 0) h (asize \<le> get_size s h) 0 = Some r"
      using assms h by (simp add: find_fit_basic_def Let_def split: if_splits)
    from loop_sound [OF this] show ?thesis
      using assms(2) by (simp add: on_chain_refl on_chain_next)
  qed
qed

lemma find_fit_basic_cyclic:
  assumes "(find_next_free s ^^ Suc n) h = h"
  shows "\<exists>r. find_fit_basic s asize h = Some r"
proof -
  have "(find_next_free s ^^ n) (find_next_free s h) = h"
    using assms by (simp add: funpow_swap1)
  from loop_terminates [OF this] show ?thesis
    by (simp add: find_fit_basic_def Let_def)
qed

lemma find_fit_basic_bucket:
  assumes ok: "bucket_ok s i" and mini: "i = 0 \<longrightarrow> asize \<le> free_16"
  shows "\<exists>r. find_fit_basic s asize (free_list_start s i) = Some r \<and> fit_result s asize r"
proof (cases "free_list_start s i = NULL")
  case True
  then show ?thesis by (simp add: find_fit_basic_def fit_result_def)
next
  case False
  let ?h = "free_list_start s i"
  from ok False have free: "\<And>b. on_chain s ?h b \<Longrightarrow> \<not> get_alloc s b False"
    by (simp add: bucket_ok_def Let_def)
  from ok False have shape0: "i = 0 \<Longrightarrow> get_size s ?h = min_block_size"
    and shape1: "i \<noteq> 0 \<Longrightarrow> \<exists>n. (find_next_free s ^^ Suc n) ?h = ?h"
    by (simp_all add: bucket_ok_def Let_def del: funpow.simps)
  have "\<exists>r. find_fit_basic s asize ?h = Some r"
  proof (cases "i = 0")
    case True
    with shape0 mini have "asize \<le> get_size s ?h \<and> get_size s ?h - asize \<le> free_16"
      by (simp add: mm_consts) unat_arith
    then show ?thesis using False by (simp add: find_fit_basic_def Let_def)
  next
    case False
    with shape1 obtain n where "(find_next_free s ^^ Suc n) ?h = ?h" by blast
    then show ?thesis by (rule find_fit_basic_cyclic)
  qed
  then obtain r where r: "find_fit_basic s asize ?h = Some r" ..
  have "fit_result s asize r"
  proof (cases "r = NULL")
    case True then show ?thesis by (simp add: fit_result_def)
  next
    case False
    from find_fit_basic_sound [OF r False] free show ?thesis by (simp add: fit_result_def)
  qed
  with r show ?thesis by simp
qed

lemma find_fit_while_ok:
  assumes "\<And>i. t \<le> i \<Longrightarrow> i < free_size \<Longrightarrow>
             \<exists>r. find_fit_basic s asize (free_list_start s i) = Some r \<and> fit_result s asize r"
  shows "\<exists>b. find_fit_while s asize t = Some b \<and> fit_result s asize b"
  using assms
proof (induction "free_size - t" arbitrary: t)
  case 0
  then show ?case by (subst find_fit_while.simps) (simp add: fit_result_def)
next
  case (Suc d)
  then have t: "t < free_size" by simp
  from Suc.prems [OF le_refl t] obtain r where
    r: "find_fit_basic s asize (free_list_start s t) = Some r" "fit_result s asize r" by auto
  show ?case
  proof (cases "r = NULL")
    case False
    then show ?thesis using r t by (subst find_fit_while.simps) simp
  next
    case True
    have "d = free_size - (t + 1)" using Suc.hyps(2) by simp
    from Suc.hyps(1) [OF this] Suc.prems
    have "\<exists>b. find_fit_while s asize (t + 1) = Some b \<and> fit_result s asize b" by simp
    then show ?thesis using r t True by (subst find_fit_while.simps) simp
  qed
qed

lemma find_fit_while_from:
  assumes "directory_ok s" and "t = 0 \<longrightarrow> asize \<le> free_16"
  shows "\<exists>b. find_fit_while s asize t = Some b \<and> fit_result s asize b"
proof (rule find_fit_while_ok)
  fix i assume "t \<le> i" "i < free_size"
  then show "\<exists>r. find_fit_basic s asize (free_list_start s i) = Some r \<and> fit_result s asize r"
    using assms by (intro find_fit_basic_bucket) (auto simp add: directory_ok_def)
qed

lemma on_chain_self:
  assumes "find_next_free s h = h"
  shows "on_chain s h b \<longleftrightarrow> b = h"
proof -
  have "(find_next_free s ^^ n) h = h" for n
    by (induction n) (simp_all add: assms)
  then show ?thesis by (auto simp add: on_chain_def)
qed

lemma bucket_ok_empty: "free_list_start s i = NULL \<Longrightarrow> bucket_ok s i"
  by (simp add: bucket_ok_def)

lemma bucket_ok_single:
  assumes "find_next_free s (free_list_start s i) = free_list_start s i"
    and "\<not> get_alloc s (free_list_start s i) False"
    and "i = 0 \<longrightarrow> get_size s (free_list_start s i) = min_block_size"
  shows "bucket_ok s i"
proof -
  have "(find_next_free s ^^ Suc 0) (free_list_start s i) = free_list_start s i"
    using assms(1) by simp
  then have "\<exists>n. (find_next_free s ^^ Suc n) (free_list_start s i) = free_list_start s i"
    by (rule exI)
  then show ?thesis
    using assms by (simp add: bucket_ok_def Let_def on_chain_self del: funpow.simps)
qed

section \<open>Initialisation\<close>

lemma mem_sbrk_ok:
  "unat (mem_brk s) + unat incr \<le> unat (mem_max_addr s) \<Longrightarrow>
   mem_sbrk s incr = (set_brk s (mem_brk s + incr), mem_brk s)"
  by (simp add: mem_sbrk_def)

lemma unat_m1: "unat (- 1 :: 64 word) = 18446744073709551615"
  by (simp add: unsigned_minus_1_eq_mask mask_eq_exp_minus_1)

lemma room_ne_m1:
  fixes a m :: "64 word"
  assumes "unat a + n \<le> unat m" "0 < n"
  shows "a \<noteq> - 1"
proof
  assume "a = - 1"
  then have "unat a = 18446744073709551615" by (simp add: unat_m1)
  moreover have "unat m < 2 ^ 64" using unsigned_less [of m, where ?'a = nat] by simp
  ultimately show False using assms by simp
qed

lemma room_add:
  fixes a m :: "64 word"
  assumes "unat a + n \<le> unat m" "k \<le> n"
  shows "unat (a + of_nat k) = unat a + k"
proof -
  have "unat m < 2 ^ 64" using unsigned_less [of m, where ?'a = nat] by simp
  then have "unat a + k < 2 ^ 64" using assms by simp
  then show ?thesis by (simp add: unat_word_ariths unat_of_nat)
qed


lemma mem_sbrk_ok':
  "unat (mem_brk s) + unat incr \<le> unat (mem_max_addr s) \<Longrightarrow> nb = mem_brk s + incr \<Longrightarrow>
   ob = mem_brk s \<Longrightarrow> mem_sbrk s incr = (set_brk s nb, ob)"
  by (simp add: mem_sbrk_def)

lemma t4096: "extract_size (pack 4096 p a m) = 4096" by (simp add: extract_size_pack)
lemma t0: "extract_size (pack 0 p a m) = 0" by (simp add: extract_size_pack)

lemma alloc2free_big:
  assumes "sz \<noteq> min_block_size" "sz AND 15 = 0" "f = b + sz - 8" "w = pack sz p a (is_minblock s b)"
  shows "alloc2free s b sz p a = insert_free (store (store s b w) f w) b"
  using assms
  by (cases p) (simp_all add: alloc2free_def Let_def header_to_footer_def get_size_def
       load_store_same extract_size_pack dsize_def wsize_def)

lemma insert_free_basic_empty:
  assumes "free_list_start s i = NULL" "x = b + 8" "n = b + 16"
  shows "insert_free_basic s b i = set_head (store (store s n b) x b) i b"
  using assms by (simp add: insert_free_basic_def Let_def set_prev_def set_next_def)

lemma insert_free_bucket:
  assumes "get_free_list (get_size s b) = i" "i \<noteq> 0"
  shows "insert_free s b = insert_free_basic s b i"
  using assms by (simp add: insert_free_def Let_def)


lemma init_symbolic:
  assumes room: "unat (mem_brk s) + 16 + 4096 \<le> unat (mem_max_addr s)"
  shows "mm_init s = Some (init_heap s, True)"
proof -
  define st where "st = mem_brk s"
  define b where "b = st + 8"
  define x where "x = st + 16"
  define n where "n = st + 24"
  define f where "f = st + 4096"
  define e where "e = st + 4104"
  define s5 where "s5 = clear_free_lists (set_heap_start (store (store (set_brk s (st + 16)) st
                 (pack 0 False True True)) b (pack 0 True True True)) b)"
  define w where "w = pack 4096 True False True"
  define s6 where "s6 = set_brk s5 (st + 4112)"
  define s7 where "s7 = set_head (store (store (store (store s6 b w) f w) n b) x b) 9 b"
  define s8 where "s8 = store s7 e (pack 0 False True False)"
  have s8: "init_heap s = s8"
    by (simp add: init_heap_def Let_def s8_def s7_def s6_def s5_def st_def b_def f_def n_def x_def e_def w_def)
  have addrs: "st + 16 - 8 = b" "b + 8 + 4096 - 16 = f" "b + 16 = n" "b + 8 = x" "b + 4096 = e"
    by (simp_all add: b_def f_def n_def x_def e_def)
  have dist: "8 \<le> b - st" "8 \<le> st - b" "8 \<le> f - b" "8 \<le> b - f" "8 \<le> n - b" "8 \<le> b - n"
     "8 \<le> x - b" "8 \<le> b - x" "8 \<le> e - b" "8 \<le> b - e" 
     "8 \<le> n - f" "8 \<le> f - n" "8 \<le> x - f" "8 \<le> f - x" "8 \<le> x - n" "8 \<le> n - x"
    by (simp_all add: b_def f_def n_def x_def e_def)
  have ne1: "st \<noteq> - 1" using room unfolding st_def
    by (intro room_ne_m1 [where n = 4112 and m = "mem_max_addr s"]) simp_all
  have u16: "unat (st + 16) = unat st + 16"
    using room_add [where a = "mem_brk s" and n = 4112 and m = "mem_max_addr s" and k = 16] room
    by (simp add: st_def)
  have u8: "unat b = unat st + 8"
    using room_add [where a = "mem_brk s" and n = 4112 and m = "mem_max_addr s" and k = 8] room
    by (simp add: st_def b_def)
  have ne2: "st + 16 \<noteq> - 1" using room u16 unfolding st_def
    by (intro room_ne_m1 [where n = 4096 and m = "mem_max_addr s"]) simp_all
  have ne3: "b \<noteq> 0"
  proof
    assume "b = 0"
    then have "unat b = 0" by simp
    then show False using u8 by simp
  qed
  have sb1: "mem_sbrk s (2 * wsize) = (set_brk s (st + 16), st)"
    unfolding st_def using room by (intro mem_sbrk_ok [THEN trans]) (simp_all add: wsize_def)
  have sb2: "mem_sbrk s5 4096 = (s6, st + 16)"
  proof -
    have "unat (mem_brk s5) + unat (4096::64 word) \<le> unat (mem_max_addr s5)"
      using room u16 by (simp add: s5_def proj st_def)
    moreover have "st + 4112 = mem_brk s5 + 4096" "st + 16 = mem_brk s5"
      by (simp_all add: s5_def proj)
    ultimately show ?thesis unfolding s6_def by (rule mem_sbrk_ok')
  qed
  have l6: "load s6 b = pack 0 True True True"
    by (simp add: s6_def s5_def proj load_store_same)
  have f6: "free_list_start s6 9 = 0" by (simp add: s6_def s5_def proj)
  define t where "t = store (store s6 b w) f w"
  have "alloc2free s6 b 4096 True False = insert_free t b"
    unfolding t_def
    apply (rule alloc2free_big [where w = w and f = f])
       apply (simp add: min_block_size_def dsize_def wsize_def)
      apply simp
     apply (simp add: f_def b_def)
    apply (simp add: w_def is_minblock_bit2 l6 bit_pack)
    done
  moreover have "get_size t b = 4096"
    by (simp add: t_def get_size_def load_store_same load_store_disj dist w_def t4096)
  then have "insert_free t b = insert_free_basic t b 9"
    by (intro insert_free_bucket) (simp_all add: get_free_list_def mm_consts)
  moreover have "insert_free_basic t b 9 = s7"
    unfolding s7_def t_def [symmetric]
    by (rule insert_free_basic_empty) (simp_all add: t_def proj f6 NULL_def x_def n_def b_def)
  ultimately have a2f: "alloc2free s6 b 4096 True False = s7" by simp
  have l7: "load s7 b = w"
    by (simp add: s7_def proj load_store_same load_store_disj dist)
  have l8: "load s8 b = w" "load s8 e = pack 0 False True False"
    by (simp_all add: s8_def l7 load_store_same load_store_disj dist)
  have fn7: "find_next s7 b = e"
    by (simp add: find_next_def get_size_def l7 w_def t4096) (simp add: e_def b_def)
  have fn8: "find_next s8 b = e"
    by (simp add: find_next_def get_size_def l8 w_def t4096) (simp add: e_def b_def)
  have co: "coalesce_block s8 b = Some (s8, b)"
    by (simp add: coalesce_block_def Let_def fn8 get_prev_alloc_def
        get_alloc_bit1 get_alloc_bit0 l8 w_def bit_pack)
  have p2h: "payload_to_header (st + 16) = b"
    by (simp add: payload_to_header_def b_def)
  have ext: "extend_heap s5 chunksize = Some (s8, b)"
    by (simp add: extend_heap_def round_up_def chunksize_def dsize_def wsize_def sb2 Let_def ne2
        p2h get_prev_alloc_def get_alloc_bit1 l6 bit_pack a2f fn7 write_epilogue_def
        s8_def [symmetric] co)
  show ?thesis
    by (simp add: mm_init_def sb1 ne1 Let_def b_def [symmetric] s5_def [symmetric] ext ne3 NULL_def s8)
qed

lemma extend_heap_fail:
  "unat (mem_max_addr s) < unat (mem_brk s) + unat (round_up sz dsize) \<Longrightarrow>
   extend_heap s sz = Some (s, NULL)"
  by (simp add: extend_heap_def mem_sbrk_def Let_def)


lemma mm_init_cases:
  "mm_init s =
     (if unat (mem_max_addr s) < unat (mem_brk s) + 16 then Some (s, False)
      else if unat (mem_max_addr s) < unat (mem_brk s) + 4112 then Some (init_prefix s, False)
      else Some (init_heap s, True))"
proof -
  consider (a) "unat (mem_max_addr s) < unat (mem_brk s) + 16"
    | (b) "unat (mem_brk s) + 16 \<le> unat (mem_max_addr s)" "unat (mem_max_addr s) < unat (mem_brk s) + 4112"
    | (c) "unat (mem_brk s) + 16 + 4096 \<le> unat (mem_max_addr s)"
    by linarith
  then show ?thesis
  proof cases
    case a
    then show ?thesis by (simp add: mm_init_def mem_sbrk_def wsize_def)
  next
    case b
    have ne: "mem_brk s \<noteq> - 1"
      using b(1) by (intro room_ne_m1 [where n = 16 and m = "mem_max_addr s"]) simp_all
    have u: "unat (mem_brk s + 16) = unat (mem_brk s) + 16"
      using room_add [where a = "mem_brk s" and n = 16 and m = "mem_max_addr s" and k = 16] b(1)
      by simp
    have sb: "mem_sbrk s (2 * wsize) = (set_brk s (mem_brk s + 16), mem_brk s)"
      using b(1) by (intro mem_sbrk_ok [THEN trans]) (simp_all add: wsize_def)
    have "extend_heap (init_prefix s) chunksize = Some (init_prefix s, NULL)"
      using b(2) u
      by (intro extend_heap_fail) (simp add: init_prefix_def Let_def proj round_up_def mm_consts)
    then show ?thesis using b ne
      by (simp add: mm_init_def sb Let_def init_prefix_def)
  next
    case c
    then show ?thesis by (simp add: init_symbolic)
  qed
qed

lemma init_heap_start:
  assumes "unat (mem_brk s) + 16 \<le> unat (mem_max_addr s)"
  shows "heap_start (init_prefix s) \<noteq> NULL" "heap_start (init_heap s) \<noteq> NULL"
proof -
  have u: "unat (mem_brk s + 8) = unat (mem_brk s) + 8"
    using room_add [where a = "mem_brk s" and n = 16 and m = "mem_max_addr s" and k = 8] assms
    by simp
  have "mem_brk s + 8 \<noteq> 0"
  proof
    assume "mem_brk s + 8 = 0"
    then have "unat (mem_brk s + 8) = 0" by simp
    then show False using u by simp
  qed
  then show "heap_start (init_prefix s) \<noteq> NULL" "heap_start (init_heap s) \<noteq> NULL"
    by (simp_all add: init_prefix_def init_heap_def Let_def proj NULL_def)
qed

lemma init_heap_prologue: "load (init_heap s) (mem_brk s) = pack 0 False True True"
  by (simp add: init_heap_def Let_def proj load_store_same load_store_disj)

section \<open>Running the allocator on a concrete heap\<close>

lemma al8_iff: "((a::64 word) AND 7 = 0) \<longleftrightarrow> 8 dvd a"
proof -
  have "(7::64 word) = mask 3" by (simp add: mask_eq_exp_minus_1)
  then have "a AND 7 = take_bit 3 a" by (simp add: take_bit_eq_mask)
  then show ?thesis by (simp add: take_bit_eq_0_iff)
qed

lemma dvd8_ge:
  fixes x :: "64 word"
  assumes "8 dvd x" "x \<noteq> 0"
  shows "8 \<le> x"
proof (rule ccontr)
  assume "\<not> 8 \<le> x"
  then have "x < 2 ^ 3" by simp
  then have "x AND mask 3 = x" by (rule less_mask_eq)
  then have "take_bit 3 x = x" by (simp only: take_bit_eq_mask)
  moreover have "take_bit 3 x = 0" using assms(1) by (simp add: take_bit_eq_0_iff)
  ultimately show False using assms(2) by simp
qed

lemma aligned_disj:
  fixes a b :: "64 word"
  assumes "a AND 7 = 0" "b AND 7 = 0" "a \<noteq> b"
  shows "8 \<le> b - a"
  using assms by (intro dvd8_ge) (simp_all add: al8_iff)

lemma load_store_al:
  "a AND 7 = 0 \<Longrightarrow> b AND 7 = 0 \<Longrightarrow>
   load (store s a v) b = (if b = a then v else load s b)"
  by (simp add: load_store_same load_store_disj aligned_disj)

lemma read_word_zero: "read_word (\<lambda>_. 0) a = 0"
  by (simp add: read_word_def horner_sum_eq_sum)

lemma write_word_over: "write_word (write_word m a u) a v = write_word m a v"
  by (auto simp add: write_word_def fun_eq_iff)

lemma off_lt8_disj:
  fixes a b x :: "64 word"
  assumes "8 \<le> b - a" "8 \<le> a - b" "x - a < 8"
  shows "\<not> x - b < 8"
  using assms by unat_arith

lemma write_word_commute:
  "8 \<le> b - a \<Longrightarrow> 8 \<le> a - b \<Longrightarrow>
   write_word (write_word m a v) b u = write_word (write_word m b u) a v"
  by (auto simp add: write_word_def fun_eq_iff dest: off_lt8_disj)

lemma mem_of_update:
  "a AND 7 = 0 \<Longrightarrow> mem_of (AList.update a v ws) = write_word (mem_of ws) a v"
proof (induction ws)
  case Nil
  then show ?case by (simp add: mem_of_def)
next
  case (Cons p ws)
  obtain k u where p: "p = (k, u)" by (cases p)
  show ?case
  proof (cases "k = a")
    case True
    then show ?thesis using Cons.prems p by (simp add: mem_of_def write_word_over)
  next
    case False
    have IH: "mem_of (AList.update a v ws) = write_word (mem_of ws) a v"
      using Cons by simp
    show ?thesis
    proof (cases "k AND 7 = 0")
      case al: True
      have "8 \<le> a - k" "8 \<le> k - a"
        using aligned_disj [of k a] aligned_disj [of a k] al Cons.prems False by auto
      then show ?thesis
        using False p al IH
        by (simp add: mem_of_def write_word_commute)
    next
      case nal: False
      then show ?thesis using False p IH by (simp add: mem_of_def)
    qed
  qed
qed

lemma store_mkheap:
  "a AND 7 = 0 \<Longrightarrow>
   store (mkheap ws fl hs b mx) a v = mkheap (AList.update a v ws) fl hs b mx"
  by (simp add: store_def mkheap_def mem_of_update)

lemma load_mkheap_Nil: "load (mkheap [] fl hs b mx) x = 0"
  by (simp add: load_def mkheap_def mem_of_def read_word_zero)

lemma load_mkheap_Cons:
  "a AND 7 = 0 \<Longrightarrow> x AND 7 = 0 \<Longrightarrow>
   load (mkheap ((a, v) # ws) fl hs b mx) x =
     (if x = a then v else load (mkheap ws fl hs b mx) x)"
proof -
  assume al: "a AND 7 = 0" "x AND 7 = 0"
  have "mkheap ((a, v) # ws) fl hs b mx = store (mkheap ws fl hs b mx) a v"
    using al by (simp add: store_def mkheap_def mem_of_def)
  then show ?thesis using al by (simp add: load_store_al)
qed

lemma set_head_mkheap:
  "i < length fl \<Longrightarrow>
   set_head (mkheap ws fl hs b mx) i v = mkheap ws (fl[i := v]) hs b mx"
  by (auto simp add: set_head_def mkheap_def fun_eq_iff)

lemma mkheap_fields:
  "free_list_start (mkheap ws fl hs b mx) i = (if i < length fl then fl ! i else 0)"
  "heap_start (mkheap ws fl hs b mx) = hs"
  "mem_brk (mkheap ws fl hs b mx) = b"
  "mem_max_addr (mkheap ws fl hs b mx) = mx"
  by (simp_all add: mkheap_def)

lemma mkheap_brk: "set_brk (mkheap ws fl hs b mx) b' = mkheap ws fl hs b' mx"
  by (simp add: mkheap_def set_brk_def)

lemma set_heap_start_mkheap: "set_heap_start (mkheap ws fl hs b mx) a = mkheap ws fl a b mx"
  by (simp add: mkheap_def set_heap_start_def)

lemma clear_free_lists_mkheap:
  "length fl = 14 \<Longrightarrow>
   clear_free_lists (mkheap ws fl hs b mx) =
     mkheap ws [0, 0, 0, 0, 0, 0, 0, 0, 0, 0, 0, 0, 0, 0] hs b mx"
proof -
  have r: "[0, 0, 0, 0, 0, 0, 0, 0, 0, 0, 0, 0, 0, 0] = replicate 14 (0::64 word)"
    by (simp add: numeral_eq_Suc)
  have "\<And>i. i < 14 \<Longrightarrow> [0, 0, 0, 0, 0, 0, 0, 0, 0, 0, 0, 0, 0, 0] ! i = (0::64 word)"
    by (simp only: r nth_replicate)
  then show "length fl = 14 \<Longrightarrow> ?thesis"
    by (simp add: mkheap_def clear_free_lists_def fun_eq_iff free_size_def NULL_def)
qed

lemma memset_mem: "mem (memset s p c n) x = (if x - p < n then c else mem s x)"
  by (simp add: memset_def)

lemma memcpy_mem:
  "mem (memcpy s d p n) x = (if x - d < n then mem s (p + (x - d)) else mem s x)"
  by (simp add: memcpy_def)

lemmas eval_defs =
  mem_sbrk_def extend_heap_def alloc2free_def insert_free_def insert_free_basic_def
  insert_free_mini_def coalesce_block_def write_epilogue_def find_next_def get_size_def
  get_prev_alloc_def get_alloc_bit0 get_alloc_bit1 is_minblock_bit2 header_to_footer_def
  payload_to_header_def round_up_def set_next_def set_prev_def get_next_def get_prev_def
  pack_def extract_size_def get_free_list_def clear_free_def clear_free_basic_def
  clear_free_mini_def free2alloc_def modify_next_def find_prev_def find_prev_footer_def
  footer_to_header_def split_block_def header_to_payload_def max_sz_def find_next_free_def
  store_mkheap load_mkheap_Nil load_mkheap_Cons set_head_mkheap mkheap_fields mkheap_brk
  set_heap_start_mkheap clear_free_lists_mkheap Let_def mm_consts

lemma bind_weak_cong: "x = y \<Longrightarrow> Option.bind x f = Option.bind y f"
  by simp

lemmas eval_congs = bind_weak_cong option.case_cong_weak prod.case_cong_weak let_weak_cong

lemmas eval_ops =
  mm_init_def malloc_def free_def realloc_def calloc_def find_fit_def find_fit_while.simps
  find_fit_basic_def find_fit_basic_loop.simps clear_free_mini_walk.simps
  get_payload_size_def

lemma calloc_overflow_check:
  fixes n sz :: "64 word"
  assumes "n \<noteq> 0" and "2 ^ 64 \<le> unat n * unat sz"
  shows "(n * sz) div n \<noteq> sz"
proof
  assume eq: "(n * sz) div n = sz"
  have n0: "0 < unat n" using assms(1) by (simp add: unat_gt_0)
  have "unat ((n * sz) div n) = unat (n * sz) div unat n" by (simp add: unat_div)
  then have "unat sz = unat (n * sz) div unat n" using eq by simp
  then have "unat n * unat sz \<le> unat (n * sz)" using n0
    by (metis mult.commute div_times_less_eq_dividend)
  moreover have "unat (n * sz) < 2 ^ 64" using unsigned_less [of "n * sz", where ?'a = nat] by simp
  ultimately show False using assms(2) by simp
qed

section \<open>The run, step by step\<close>

lemmas run_heaps =
  heap0_def heapI_def heapA1_def heapA2_def heapA3_def heapA4_def heapA5_def heapA6_def heapA7_def
  heapA8_def

lemma run_init: "mm_init heap0 = Some (heapI, True)"
  by (simp add: run_heaps eval_ops eval_defs cong: eval_congs)

lemma run_malloc_a: "malloc heap0 8 = Some (heapA1, 4112)"
  by (simp add: run_heaps eval_ops eval_defs cong: eval_congs)

lemma run_malloc_b: "malloc heapA1 8 = Some (heapA2, 4128)"
  by (simp add: run_heaps eval_ops eval_defs cong: eval_congs)

lemma run_malloc_c: "malloc heapA2 8 = Some (heapA3, 4144)"
  by (simp add: run_heaps eval_ops eval_defs cong: eval_congs)

lemma run_malloc_d: "malloc heapA3 8 = Some (heapA4, 4160)"
  by (simp add: run_heaps eval_ops eval_defs cong: eval_congs)

lemma run_malloc_e: "malloc heapA4 8 = Some (heapA5, 4176)"
  by (simp add: run_heaps eval_ops eval_defs cong: eval_congs)

lemma run_free_a: "free heapA5 4112 = Some heapA6"
  by (simp add: run_heaps eval_ops eval_defs cong: eval_congs)

lemma run_free_d: "free heapA6 4160 = Some heapA7"
  by (simp add: run_heaps eval_ops eval_defs cong: eval_congs)

lemma run_free_b: "free heapA7 4128 = Some heapA8"
  by (simp add: run_heaps eval_ops eval_defs cong: eval_congs)

lemma directory_ok_A1: "directory_ok heapA1"
  unfolding directory_ok_def
proof (intro allI impI)
  fix i assume "i < free_size"
  then consider "i = 9" | "i < 14" "i \<noteq> 9" by (auto simp add: free_size_def)
  then show "bucket_ok heapA1 i"
  proof cases
    case 1
    then show ?thesis
      by (intro bucket_ok_single) (simp_all add: heapA1_def eval_defs)
  next
    case 2
    then have "free_list_start heapA1 i = NULL"
      by (simp add: heapA1_def mkheap_fields NULL_def nth_Cons split: nat.splits)
    then show ?thesis by (rule bucket_ok_empty)
  qed
qed

lemma find_fit_A1: "find_fit heapA1 16 = Some 4120"
  by (simp add: heapA1_def eval_ops eval_defs cong: eval_congs)

lemma heads_A8:
  "i < free_size \<Longrightarrow> free_list_start heapA8 i \<noteq> NULL \<Longrightarrow>
   free_list_start heapA8 i = 4104 \<or> free_list_start heapA8 i = 4184"
  by (simp add: heapA8_def mkheap_fields NULL_def free_size_def nth_Cons split: nat.splits)

lemma unsat_A1: "alloc_unsatisfiable heapA1 5000"
  by (simp add: alloc_unsatisfiable_def heapA1_def eval_ops eval_defs cong: eval_congs)

lemma calloc_run: "calloc heap0 1 8 = Some (memset heapA1 4112 0 8, 4112)"
  by (simp add: calloc_def run_malloc_a NULL_def)

section \<open>The claims\<close>

text \<open>C1. Whatever size is asked for, on a directory whose buckets are well formed
  (\<^const>\<open>directory_ok\<close>: chains hold free blocks, bucket 0 holds minimum-size blocks, the
  other chains are circular), \<^verbatim>\<open>find_fit\<close> returns, and what it returns is either
  \<^verbatim>\<open>NULL\<close> or a block that is free and at least as large as the size asked for.\<close>

theorem find_fit_returns_free_fit:
  assumes "directory_ok s"
  shows "\<exists>b. find_fit s asize = Some b \<and>
           (b = NULL \<or> (\<not> get_alloc s b False \<and> asize \<le> get_size s b))"
proof -
  have "\<And>t. t = 0 \<longrightarrow> asize \<le> free_16 \<Longrightarrow>
      \<exists>b. find_fit_while s asize t = Some b \<and>
           (b = NULL \<or> (\<not> get_alloc s b False \<and> asize \<le> get_size s b))"
    using find_fit_while_from [OF assms] by (simp add: fit_result_def)
  then show ?thesis by (simp add: find_fit_def)
qed

theorem find_fit_returns_free_fit_witness:
  "directory_ok heapA1 \<and> find_fit heapA1 16 = Some 4120 \<and>
   \<not> get_alloc heapA1 4120 False \<and> 16 \<le> get_size heapA1 4120"
  using find_fit_returns_free_fit [OF directory_ok_A1, of 16] directory_ok_A1
  by (simp add: find_fit_A1 NULL_def)


text \<open>C3. After the public operations \<^verbatim>\<open>a = malloc(8)\<close>, \<^verbatim>\<open>b = malloc(8)\<close>,
  \<^verbatim>\<open>c = malloc(8)\<close>, \<^verbatim>\<open>d = malloc(8)\<close>, \<^verbatim>\<open>e = malloc(8)\<close>, \<^verbatim>\<open>free(a)\<close>, \<^verbatim>\<open>free(d)\<close>,
  \<^verbatim>\<open>free(b)\<close> on a fresh heap, the block of \<^verbatim>\<open>d\<close> is free (its self-allocated bit is
  false) and yet on no bucket: coalescing \<^verbatim>\<open>b\<close> with \<^verbatim>\<open>a\<close> removes \<^verbatim>\<open>a\<close>, the last node
  of bucket 0, and \<^verbatim>\<open>clear_free_mini\<close> then empties the whole bucket.\<close>

theorem free_drops_bucket0:
  "do { (s1, a) \<leftarrow> malloc heap0 8; (s2, b) \<leftarrow> malloc s1 8; (s3, c) \<leftarrow> malloc s2 8;
        (s4, d) \<leftarrow> malloc s3 8; (s5, e) \<leftarrow> malloc s4 8;
        s6 \<leftarrow> free s5 a; s7 \<leftarrow> free s6 d; s8 \<leftarrow> free s7 b; Some (s8, d) }
     = Some (heapA8, 4160) \<and>
   \<not> get_alloc heapA8 (payload_to_header 4160) False \<and>
   \<not> on_some_bucket heapA8 (payload_to_header 4160)"
proof -
  have run: "do { (s1, a) \<leftarrow> malloc heap0 8; (s2, b) \<leftarrow> malloc s1 8; (s3, c) \<leftarrow> malloc s2 8;
        (s4, d) \<leftarrow> malloc s3 8; (s5, e) \<leftarrow> malloc s4 8;
        s6 \<leftarrow> free s5 a; s7 \<leftarrow> free s6 d; s8 \<leftarrow> free s7 b; Some (s8, d) }
     = Some (heapA8, 4160)"
    by (simp add: run_malloc_a run_malloc_b run_malloc_c run_malloc_d run_malloc_e
          run_free_a run_free_d run_free_b)
  have free: "\<not> get_alloc heapA8 (payload_to_header 4160) False"
    by (simp add: heapA8_def eval_defs)
  have "on_chain heapA8 4104 b \<longleftrightarrow> b = 4104" "on_chain heapA8 4184 b \<longleftrightarrow> b = 4184" for b
    by (rule on_chain_self, simp add: heapA8_def eval_defs)+
  then have "\<not> on_chain heapA8 h 4152" if "h = 4104 \<or> h = 4184" for h
    using that by auto
  then have "\<not> on_some_bucket heapA8 (payload_to_header 4160)"
    using heads_A8 by (simp add: on_some_bucket_def payload_to_header_def) blast
  with run free show ?thesis by simp
qed


text \<open>C4. After a successful \<^verbatim>\<open>mm_init\<close> the word at the heap's low end (the break
  before the call) is the prologue, packed as size 0, prev-allocated false,
  self-allocated true, prev-is-min true.\<close>

theorem mm_init_prologue:
  "mm_init s = Some (s', True) \<Longrightarrow> load s' (mem_brk s) = pack 0 False True True"
  by (auto simp add: mm_init_cases init_heap_prologue split: if_splits)

theorem mm_init_prologue_witness:
  "mm_init heap0 = Some (heapI, True) \<and> load heapI (mem_brk heap0) = pack 0 False True True"
  using mm_init_prologue [OF run_init] run_init by simp


text \<open>C4, as first stated (prev-allocated true), fails on the fresh heap.\<close>

theorem mm_init_prologue_counterexample:
  "mm_init heap0 = Some (heapI, True) \<and> load heapI (mem_brk heap0) \<noteq> pack 0 True True True"
  by (simp add: run_init) (simp add: run_heaps eval_defs)


text \<open>C6. On an initialised heap, for a pointer that is not \<^verbatim>\<open>NULL\<close> and a size that is
  not 0, when the internal allocation cannot be satisfied (\<^const>\<open>alloc_unsatisfiable\<close>)
  \<^verbatim>\<open>realloc\<close> returns \<^verbatim>\<open>NULL\<close> and leaves the whole heap as it was: the block of
  the pointer keeps its header, so it stays allocated with its size, and every byte
  of its payload.\<close>

theorem realloc_failure_keeps_heap:
  assumes "heap_start s \<noteq> NULL" "ptr \<noteq> NULL" "sz \<noteq> 0" "alloc_unsatisfiable s sz"
  shows "realloc s ptr sz = Some (s, NULL)"
proof -
  let ?asize = "round_up (sz + wsize) dsize"
  from assms(4) have ff: "find_fit s ?asize = Some NULL"
    and full: "unat (mem_max_addr s) < unat (mem_brk s) + unat (round_up (max_sz ?asize chunksize) dsize)"
    by (simp_all add: alloc_unsatisfiable_def Let_def)
  from full have "extend_heap s (max_sz ?asize chunksize) = Some (s, NULL)"
    by (rule extend_heap_fail)
  then have "malloc s sz = Some (s, NULL)"
    using assms(1,3) ff by (simp add: malloc_def Let_def)
  then show ?thesis using assms(2,3) by (simp add: realloc_def Let_def)
qed

theorem realloc_failure_keeps_heap_witness:
  "heap_start heapA1 \<noteq> NULL \<and> (4112::addr) \<noteq> NULL \<and> (5000::size_t) \<noteq> 0 \<and>
   alloc_unsatisfiable heapA1 5000 \<and> realloc heapA1 4112 5000 = Some (heapA1, NULL)"
proof -
  have a: "heap_start heapA1 \<noteq> NULL" by (simp add: heapA1_def mkheap_fields NULL_def)
  have b: "(4112::addr) \<noteq> NULL" by (simp add: NULL_def)
  have c: "(5000::size_t) \<noteq> 0" by simp
  from realloc_failure_keeps_heap [OF a b c unsat_A1] a b c unsat_A1 show ?thesis by simp
qed


text \<open>C8. \<^verbatim>\<open>calloc\<close> returns \<^verbatim>\<open>NULL\<close>, leaving the heap as it was, whenever the product
  of its arguments does not fit in 64 bits; and whenever it returns a pointer that is
  not \<^verbatim>\<open>NULL\<close>, the first \<^verbatim>\<open>n * size\<close> bytes from that pointer are zero.\<close>

theorem calloc_overflow_and_zero:
  "(2 ^ 64 \<le> unat n * unat sz \<longrightarrow> calloc s n sz = Some (s, NULL)) \<and>
   (\<forall>s' p. calloc s n sz = Some (s', p) \<and> p \<noteq> NULL \<longrightarrow>
      (\<forall>i. i < n * sz \<longrightarrow> mem s' (p + i) = 0))"
proof (intro conjI impI allI)
  assume "2 ^ 64 \<le> unat n * unat sz"
  then show "calloc s n sz = Some (s, NULL)"
    using calloc_overflow_check [of n sz] by (simp add: calloc_def Let_def)
next
  fix s' p i
  assume h: "calloc s n sz = Some (s', p) \<and> p \<noteq> NULL" and i: "i < n * sz"
  from h obtain s1 where "s' = memset s1 p 0 (n * sz)"
    by (auto simp add: calloc_def Let_def split: if_splits option.splits prod.splits bind_splits)
  then show "mem s' (p + i) = 0" using i by (simp add: memset_def)
qed

theorem calloc_overflow_and_zero_witness:
  "calloc heap0 9223372036854775808 2 = Some (heap0, NULL) \<and>
   calloc heap0 1 8 = Some (memset heapA1 4112 0 8, 4112) \<and>
   mem (memset heapA1 4112 0 8) (4112 + 7) = 0"
proof -
  have "(2::nat) ^ 64 \<le> unat (9223372036854775808 :: 64 word) * unat (2 :: 64 word)" by simp
  with calloc_overflow_and_zero [of 9223372036854775808 2 heap0]
  have a: "calloc heap0 9223372036854775808 2 = Some (heap0, NULL)" by blast
  from calloc_overflow_and_zero [of 1 8 heap0] calloc_run
  have "\<forall>i. i < 8 \<longrightarrow> mem (memset heapA1 4112 0 8) (4112 + i) = 0" by (simp add: NULL_def)
  then have "7 < (8::64 word) \<longrightarrow> mem (memset heapA1 4112 0 8) (4112 + 7) = 0" by (rule spec)
  then have "mem (memset heapA1 4112 0 8) (4112 + 7) = 0" by simp
  with a calloc_run show ?thesis by simp
qed


text \<open>C10. When \<^verbatim>\<open>malloc\<close> is called on a heap that was never initialised
  (\<^verbatim>\<open>heap_start\<close> is \<^verbatim>\<open>NULL\<close>), \<^verbatim>\<open>mm_init\<close> runs to its end, and the call gives
  what it gives on the heap that an explicit \<^verbatim>\<open>mm_init\<close> leaves.\<close>

theorem malloc_self_init:
  assumes "heap_start s = NULL"
  shows "\<exists>s1 ok. mm_init s = Some (s1, ok) \<and> malloc s sz = malloc s1 sz"
proof -
  consider (a) "unat (mem_max_addr s) < unat (mem_brk s) + 16"
    | (b) "unat (mem_brk s) + 16 \<le> unat (mem_max_addr s)"
    by linarith
  then show ?thesis
  proof cases
    case a
    then have "mm_init s = Some (s, False)" by (simp add: mm_init_cases)
    then show ?thesis by (intro exI [of _ s] exI [of _ False]) simp
  next
    case b
    from init_heap_start [OF b] show ?thesis
      using assms b by (auto simp add: mm_init_cases malloc_def)
  qed
qed

theorem malloc_self_init_witness:
  "heap_start heap0 = NULL \<and> mm_init heap0 = Some (heapI, True) \<and>
   malloc heap0 8 = malloc heapI 8"
proof -
  have h: "heap_start heap0 = NULL" by (simp add: heap0_def mkheap_fields NULL_def)
  from malloc_self_init [OF h, of 8] run_init h show ?thesis by simp
qed


end
